theory Spec2Isabelle
  imports Main "HOL-Library.Char_ord" "HOL-Library.List_Lexorder"
begin

section \<open>Expressions\<close>

text \<open>
  \<^verbatim>\<open>dataset.h\<close> uses \<^verbatim>\<open>Expression\<close>, \<^verbatim>\<open>ScanOptions\<close>, \<^verbatim>\<open>RecordBatch\<close> and
  \<^verbatim>\<open>Schema\<close> through \<^verbatim>\<open>type_fwd.h\<close>, which is not among the sources. The types
  below follow section 3 of the specification: an expression is an immutable tree whose
  variants are a field reference, a typed scalar literal, a comparison
  (\<open>=, <, <=, >, >=\<close>), membership in a set, a null check and logical AND/OR/NOT.
\<close>

datatype Scalar = BoolScalar bool | IntScalar int | StringScalar string

datatype CompareOp = EQUAL | LESS | LESS_EQUAL | GREATER | GREATER_EQUAL

datatype Expression =
    FieldRef string
  | ScalarLit Scalar
  | Comparison CompareOp Expression Expression
  | InSet Expression "Scalar list"
  | IsNull Expression
  | AndExpr Expression Expression
  | OrExpr Expression Expression
  | NotExpr Expression

text \<open>The result of a three-way comparison of two scalars of one type.\<close>

datatype Ordering = LT | EQ | GT

definition three_way :: "'a::linorder \<Rightarrow> 'a \<Rightarrow> Ordering" where
  "three_way a b = (if a < b then LT else if a = b then EQ else GT)"

text \<open>Scalars of different types are not comparable: the result is \<open>None\<close>.\<close>

fun scalar_compare :: "Scalar \<Rightarrow> Scalar \<Rightarrow> Ordering option" where
  "scalar_compare (BoolScalar a) (BoolScalar b) = Some (three_way a b)"
| "scalar_compare (IntScalar a) (IntScalar b) = Some (three_way a b)"
| "scalar_compare (StringScalar a) (StringScalar b) = Some (three_way a b)"
| "scalar_compare _ _ = None"

fun op_holds :: "CompareOp \<Rightarrow> Ordering \<Rightarrow> bool" where
  "op_holds EQUAL ord = (ord = EQ)"
| "op_holds LESS ord = (ord = LT)"
| "op_holds LESS_EQUAL ord = (ord = LT \<or> ord = EQ)"
| "op_holds GREATER ord = (ord = GT)"
| "op_holds GREATER_EQUAL ord = (ord = GT \<or> ord = EQ)"

subsection \<open>Evaluation on a row\<close>

text \<open>
  The evaluator is an external collaborator of the dataset layer; it is given here as the
  meaning of an expression on one row, so that "a row matches the filter" can be stated.
  A row maps a field name to its value; \<open>None\<close> is a null. Logical connectives are
  three-valued: a null or a non-boolean operand is "unknown".
\<close>

type_synonym Row = "string \<Rightarrow> Scalar option"

fun truth :: "Scalar option \<Rightarrow> bool option" where
  "truth (Some (BoolScalar b)) = Some b"
| "truth _ = None"

fun kleene_and :: "bool option \<Rightarrow> bool option \<Rightarrow> bool option" where
  "kleene_and (Some False) _ = Some False"
| "kleene_and _ (Some False) = Some False"
| "kleene_and (Some True) (Some True) = Some True"
| "kleene_and _ _ = None"

fun kleene_or :: "bool option \<Rightarrow> bool option \<Rightarrow> bool option" where
  "kleene_or (Some True) _ = Some True"
| "kleene_or _ (Some True) = Some True"
| "kleene_or (Some False) (Some False) = Some False"
| "kleene_or _ _ = None"

fun Evaluate :: "Expression \<Rightarrow> Row \<Rightarrow> Scalar option" where
  "Evaluate (FieldRef n) row = row n"
| "Evaluate (ScalarLit v) row = Some v"
| "Evaluate (Comparison cmp l r) row =
     (case (Evaluate l row, Evaluate r row) of
        (Some a, Some b) \<Rightarrow> map_option (\<lambda>ord. BoolScalar (op_holds cmp ord)) (scalar_compare a b)
      | _ \<Rightarrow> None)"
| "Evaluate (InSet e vs) row =
     (case Evaluate e row of None \<Rightarrow> None | Some a \<Rightarrow> Some (BoolScalar (a \<in> set vs)))"
| "Evaluate (IsNull e) row = Some (BoolScalar (Evaluate e row = None))"
| "Evaluate (AndExpr a b) row =
     map_option BoolScalar (kleene_and (truth (Evaluate a row)) (truth (Evaluate b row)))"
| "Evaluate (OrExpr a b) row =
     map_option BoolScalar (kleene_or (truth (Evaluate a row)) (truth (Evaluate b row)))"
| "Evaluate (NotExpr a) row = map_option (\<lambda>b. BoolScalar (\<not> b)) (truth (Evaluate a row))"

text \<open>A row is admitted by a predicate when the predicate evaluates to true on it.\<close>

definition admits :: "Expression \<Rightarrow> Row \<Rightarrow> bool" where
  "admits e row \<longleftrightarrow> truth (Evaluate e row) = Some True"

subsection \<open>Simplification against an assumption\<close>

definition statically_false :: "Expression \<Rightarrow> bool" where
  "statically_false e \<longleftrightarrow> e = ScalarLit (BoolScalar False)"

definition statically_true :: "Expression \<Rightarrow> bool" where
  "statically_true e \<longleftrightarrow> e = ScalarLit (BoolScalar True)"

text \<open>
  What is known of \<open>x\<close> against \<open>v\<close> once \<open>x cmp c\<close> is assumed and \<open>c\<close> compares to
  \<open>v\<close> as \<open>ord\<close>: the orderings of \<open>x\<close> and \<open>v\<close> that remain possible.
\<close>

fun possible :: "CompareOp \<Rightarrow> Ordering \<Rightarrow> Ordering list" where
  "possible EQUAL ord = [ord]"
| "possible LESS LT = [LT]"
| "possible LESS EQ = [LT]"
| "possible LESS_EQUAL LT = [LT]"
| "possible LESS_EQUAL EQ = [LT, EQ]"
| "possible GREATER GT = [GT]"
| "possible GREATER EQ = [GT]"
| "possible GREATER_EQUAL GT = [GT]"
| "possible GREATER_EQUAL EQ = [EQ, GT]"
| "possible _ _ = [LT, EQ, GT]"

text \<open>
  Modelled from the spec: \<^verbatim>\<open>Expression::Simplify\<close> is declared outside the sources.
  Section 4.1: when the assumption pins a field to a constant or to a provably disjoint or
  overlapping range and the expression references only that field, the comparison folds to
  \<open>true\<close> or \<open>false\<close>; otherwise it is left as it is. Logical connectives simplify their
  operands and fold literals.
\<close>

definition fold_comparison :: "CompareOp \<Rightarrow> Ordering list \<Rightarrow> Expression \<Rightarrow> Expression" where
  "fold_comparison cmp ords unchanged =
     (if list_all (op_holds cmp) ords then ScalarLit (BoolScalar True)
      else if list_all (\<lambda>ord. \<not> op_holds cmp ord) ords then ScalarLit (BoolScalar False)
      else unchanged)"

definition fold_and :: "Expression \<Rightarrow> Expression \<Rightarrow> Expression" where
  "fold_and a b =
     (if statically_false a \<or> statically_false b then ScalarLit (BoolScalar False)
      else if statically_true a then b
      else if statically_true b then a
      else AndExpr a b)"

definition fold_or :: "Expression \<Rightarrow> Expression \<Rightarrow> Expression" where
  "fold_or a b =
     (if statically_true a \<or> statically_true b then ScalarLit (BoolScalar True)
      else if statically_false a then b
      else if statically_false b then a
      else OrExpr a b)"

definition fold_not :: "Expression \<Rightarrow> Expression" where
  "fold_not a =
     (if statically_true a then ScalarLit (BoolScalar False)
      else if statically_false a then ScalarLit (BoolScalar True)
      else NotExpr a)"

fun SimplifyWith :: "CompareOp \<Rightarrow> string \<Rightarrow> Scalar \<Rightarrow> Expression \<Rightarrow> Expression" where
  "SimplifyWith gcmp g c (Comparison cmp (FieldRef n) (ScalarLit v)) =
     (if n = g then
        (case scalar_compare c v of
           None \<Rightarrow> Comparison cmp (FieldRef n) (ScalarLit v)
         | Some ord \<Rightarrow>
             fold_comparison cmp (possible gcmp ord) (Comparison cmp (FieldRef n) (ScalarLit v)))
      else Comparison cmp (FieldRef n) (ScalarLit v))"
| "SimplifyWith gcmp g c (AndExpr a b) = fold_and (SimplifyWith gcmp g c a) (SimplifyWith gcmp g c b)"
| "SimplifyWith gcmp g c (OrExpr a b) = fold_or (SimplifyWith gcmp g c a) (SimplifyWith gcmp g c b)"
| "SimplifyWith gcmp g c (NotExpr a) = fold_not (SimplifyWith gcmp g c a)"
| "SimplifyWith gcmp g c e = e"

text \<open>\<open>Simplify e given\<close> rewrites the receiver \<open>e\<close> assuming that \<open>given\<close> holds.\<close>

fun Simplify :: "Expression \<Rightarrow> Expression \<Rightarrow> Expression" where
  "Simplify e (Comparison gcmp (FieldRef g) (ScalarLit c)) = SimplifyWith gcmp g c e"
| "Simplify e (AndExpr p q) = Simplify (Simplify e p) q"
| "Simplify e given = e"

section \<open>Scan options and fragments\<close>

text \<open>
  \<^verbatim>\<open>ScanOptions\<close> and \<^verbatim>\<open>Schema\<close> are forward declarations in \<^verbatim>\<open>dataset.h\<close>. Section 3
  of the specification gives scan options a projection list, a residual filter and a
  requested schema, and a schema an ordered sequence of named, typed fields.
\<close>

datatype DataType = BOOL | UINT8 | INT32 | INT64 | DOUBLE | UTF8

type_synonym Schema = "(string \<times> DataType) list"

record ScanOptions =
  filter' :: Expression
  projection :: "string list"
  schema :: Schema

text \<open>A record batch is a run of rows; nothing in \<^verbatim>\<open>dataset.h\<close> looks inside one.\<close>

type_synonym RecordBatch = "(string \<times> Scalar) list list"

subsection \<open>\<^verbatim>\<open>class DataFragment\<close> (dataset.h, lines 37 to 71)\<close>

text \<open>
  The two protected members \<^verbatim>\<open>scan_options_\<close> and \<^verbatim>\<open>partition_expression_\<close> are
  \<^verbatim>\<open>std::shared_ptr\<close>s, so each may be null: \<open>None\<close>. The members are written here with a
  prime where the C++ has a trailing underscore. A subclass is a record extension, so the
  accessors of the base class apply to every fragment.
\<close>

record DataFragment =
  scan_options' :: "ScanOptions option"
  partition_expression' :: "Expression option"

text \<open>
  The inline protected constructor
  \<^verbatim>\<open>DataFragment(scan_options, partition_expression)\<close> moves its arguments into the members.
\<close>

definition DataFragment :: "ScanOptions option \<Rightarrow> Expression option \<Rightarrow> DataFragment" where
  "DataFragment options expr = \<lparr>scan_options' = options, partition_expression' = expr\<rparr>"

text \<open>\<^verbatim>\<open>scan_options() const { return scan_options_; }\<close>\<close>

definition scan_options :: "'a DataFragment_scheme \<Rightarrow> ScanOptions option" where
  "scan_options self = scan_options' self"

text \<open>\<^verbatim>\<open>partition_expression() const { return partition_expression_; }\<close>\<close>

definition partition_expression :: "'a DataFragment_scheme \<Rightarrow> Expression option" where
  "partition_expression self = partition_expression' self"

subsection \<open>\<^verbatim>\<open>class SimpleDataFragment\<close> (dataset.h, lines 75 to 86)\<close>

record SimpleDataFragment = DataFragment +
  record_batches' :: "RecordBatch list"

text \<open>\<^verbatim>\<open>bool splittable() const override { return false; }\<close>\<close>

definition splittable :: "SimpleDataFragment \<Rightarrow> bool" where
  "splittable self = False"

section \<open>Data sources (dataset.h, lines 91 to 149)\<close>

text \<open>
  Modelled from the spec: \<^verbatim>\<open>dataset.h\<close> builds a \<^verbatim>\<open>SimpleDataSource\<close> (lines 127 to 128)
  and a \<^verbatim>\<open>TreeDataSource\<close> (line 141) through the default base constructor, which leaves
  \<^verbatim>\<open>partition_expression_\<close> null; the classes that hand an expression to the protected
  constructor \<^verbatim>\<open>DataSource(c)\<close> (lines 110 to 111) are not among the sources. Section 3
  gives every source, flat or tree, "its own partition expression", so both variants carry
  the member \<^verbatim>\<open>partition_expression_\<close> of the base class as their first argument
  (\<open>None\<close> is null). A source hands its fragments on without looking inside them, so the
  fragment type is a parameter \<open>'f\<close>.
\<close>

datatype 'f DataSource =
    SimpleDataSource "Expression option" "'f list"
  | TreeDataSource "Expression option" "'f DataSource list"

text \<open>
  The two public constructors of the header:
  \<^verbatim>\<open>SimpleDataSource(fragments) : fragments_(std::move(fragments))\<close> and
  \<^verbatim>\<open>TreeDataSource(children) : children_(std::move(children))\<close>.
\<close>

definition make_SimpleDataSource :: "'f list \<Rightarrow> 'f DataSource" where
  "make_SimpleDataSource fragments = SimpleDataSource None fragments"

definition make_TreeDataSource :: "'f DataSource list \<Rightarrow> 'f DataSource" where
  "make_TreeDataSource children = TreeDataSource None children"

text \<open>\<^verbatim>\<open>DataSource::partition_expression()\<close> returns the member.\<close>

fun source_partition_expression :: "'f DataSource \<Rightarrow> Expression option" where
  "source_partition_expression (SimpleDataSource p fragments) = p"
| "source_partition_expression (TreeDataSource p children) = p"

fun type_name :: "'f DataSource \<Rightarrow> string" where
  "type_name (SimpleDataSource p fragments) = ''simple''"
| "type_name (TreeDataSource p children) = ''tree''"

text \<open>
  Modelled from the spec: \<^verbatim>\<open>DataSource::AssumePartitionExpression\<close> is declared in
  \<^verbatim>\<open>dataset.h\<close> (lines 115 to 119) and its body is not among the sources. The declaration
  returns a \<^verbatim>\<open>bool\<close> and writes the simplified options through an out-parameter: the pair
  below. Its comment: it assumes \<^verbatim>\<open>partition_expression_\<close> holds for all yielded
  fragments and returns false if the selector is not satisfiable in this source. Section 4.3:
  the source simplifies the requested filter against its own partition expression, and a
  statically false result means that the source yields nothing. A null partition expression
  is "no information" and null scan options mean "no filtering, all partitions scanned":
  in both cases nothing is assumed and the options pass unchanged.
\<close>

definition AssumePartitionExpression ::
  "'f DataSource \<Rightarrow> ScanOptions option \<Rightarrow> bool \<times> ScanOptions option" where
  "AssumePartitionExpression self options =
     (case source_partition_expression self of
        None \<Rightarrow> (True, options)
      | Some p \<Rightarrow>
          (case options of
             None \<Rightarrow> (True, None)
           | Some opts \<Rightarrow>
               (let expr = Simplify (filter' opts) p in
                if statically_false expr then (False, None)
                else (True, Some (opts\<lparr>filter' := expr\<rparr>)))))"

text \<open>
  What a call of \<^verbatim>\<open>GetFragments\<close> did to a source: it pruned the source on the
  assumption test, or it went on to enumerate it with \<^verbatim>\<open>GetFragmentsImpl\<close>.
\<close>

datatype 'f Visit = Pruned "'f DataSource" | Enumerated "'f DataSource"

text \<open>
  Modelled from the spec: the bodies of \<^verbatim>\<open>DataSource::GetFragments\<close>,
  \<^verbatim>\<open>SimpleDataSource::GetFragmentsImpl\<close> and \<^verbatim>\<open>TreeDataSource::GetFragmentsImpl\<close> are
  not among the sources (\<^verbatim>\<open>dataset.h\<close> declares them at lines 95, 130 and 143).
  Section 4.3: \<^verbatim>\<open>GetFragments\<close> first calls \<^verbatim>\<open>AssumePartitionExpression\<close>; on false the
  source contributes zero fragments without visiting children. A flat source forwards all
  its fragments. A tree source applies the same test to each child and joins the
  survivors' fragment sequences, depth-first and in the order of the children.
  The iterator is given as the list of the fragments it yields, paired with the visits
  made in the order they were made.
\<close>

fun GetFragments :: "'f DataSource \<Rightarrow> ScanOptions option \<Rightarrow> 'f list \<times> 'f Visit list"
and GetFragmentsImpl :: "'f DataSource \<Rightarrow> ScanOptions option \<Rightarrow> 'f list \<times> 'f Visit list"
and GetFragmentsFromSources ::
  "'f DataSource list \<Rightarrow> ScanOptions option \<Rightarrow> 'f list \<times> 'f Visit list"
where
  "GetFragments self options =
     (case AssumePartitionExpression self options of
        (False, _) \<Rightarrow> ([], [Pruned self])
      | (True, simplified) \<Rightarrow>
          (case GetFragmentsImpl self simplified of
             (fragments, visited) \<Rightarrow> (fragments, Enumerated self # visited)))"
| "GetFragmentsImpl (SimpleDataSource p fragments) options = (fragments, [])"
| "GetFragmentsImpl (TreeDataSource p children) options = GetFragmentsFromSources children options"
| "GetFragmentsFromSources [] options = ([], [])"
| "GetFragmentsFromSources (child # rest) options =
     (case GetFragments child options of
        (fragments, visited) \<Rightarrow>
          (case GetFragmentsFromSources rest options of
             (fragments', visited') \<Rightarrow> (fragments @ fragments', visited @ visited')))"

subsection \<open>The data a source views\<close>

text \<open>
  A partition expression is true for all data viewed by its source. A row can belong to a
  fragment only if the partition expressions of all sources above the fragment hold on it;
  \<open>fragments_viewing row self\<close> lists the fragments of the tree for which they do.
\<close>

fun holds_on :: "Expression option \<Rightarrow> Row \<Rightarrow> bool" where
  "holds_on None row = True"
| "holds_on (Some p) row = admits p row"

fun fragments_viewing :: "Row \<Rightarrow> 'f DataSource \<Rightarrow> 'f list" where
  "fragments_viewing row (SimpleDataSource p fragments) = (if holds_on p row then fragments else [])"
| "fragments_viewing row (TreeDataSource p children) =
     (if holds_on p row then concat (map (fragments_viewing row) children) else [])"

subsection \<open>The layout of the tests\<close>

text \<open>
  \<^verbatim>\<open>test-dataset.R\<close> writes one file under directory \<^verbatim>\<open>1\<close> and one under directory
  \<^verbatim>\<open>2\<close> and opens them with the partition field \<^verbatim>\<open>part\<close>. The source below has that
  shape: a flat source for directory \<open>k\<close> under the partition expression \<open>part = k\<close>.
\<close>

definition part_equals :: "int \<Rightarrow> Expression" where
  "part_equals k = Comparison EQUAL (FieldRef ''part'') (ScalarLit (IntScalar k))"

definition scan_with :: "Expression \<Rightarrow> ScanOptions" where
  "scan_with e = \<lparr>filter' = e, projection = [''int'', ''part''],
                   schema = [(''int'', INT32), (''part'', UINT8)]\<rparr>"

definition in_memory :: "RecordBatch list \<Rightarrow> SimpleDataFragment" where
  "in_memory batches =
     \<lparr>scan_options' = None, partition_expression' = None, record_batches' = batches\<rparr>"

definition directory_source :: "int \<Rightarrow> SimpleDataFragment DataSource" where
  "directory_source k =
     SimpleDataSource (Some (part_equals k)) [in_memory [[[(''int'', IntScalar (100 * k))]]]]"

definition row_of_part :: "int \<Rightarrow> Row" where
  "row_of_part k = [''int'' \<mapsto> IntScalar 7, ''part'' \<mapsto> IntScalar k]"

text \<open>
  The two directories below a source of their own, as a second partition level would put
  them: a tree for the year 2015 over the directories \<open>1\<close> and \<open>2\<close>.
\<close>

definition year_equals :: "int \<Rightarrow> Expression" where
  "year_equals y = Comparison EQUAL (FieldRef ''year'') (ScalarLit (IntScalar y))"

definition year_source :: "SimpleDataFragment DataSource" where
  "year_source = TreeDataSource (Some (year_equals 2015)) [directory_source 1, directory_source 2]"

definition row_of_year_part :: "int \<Rightarrow> int \<Rightarrow> Row" where
  "row_of_year_part y k = [''year'' \<mapsto> IntScalar y, ''part'' \<mapsto> IntScalar k]"

section \<open>Simplification preserves the filter on the assumed rows\<close>

lemma possible_three_way:
  fixes x :: "'a::linorder"
  assumes "op_holds gcmp (three_way x c)"
  shows "three_way x v \<in> set (possible gcmp (three_way c v))"
  using assms by (cases gcmp) (auto simp: three_way_def split: if_splits)

lemma possible_sound:
  assumes "scalar_compare x c = Some o1" "op_holds gcmp o1" "scalar_compare c v = Some ord"
  shows "\<exists>o'. scalar_compare x v = Some o' \<and> o' \<in> set (possible gcmp ord)"
proof (cases x)
  case (BoolScalar a)
  with assms show ?thesis
    by (cases c; cases v) (use possible_three_way in force)+
next
  case (IntScalar a)
  with assms show ?thesis
    by (cases c; cases v) (use possible_three_way in force)+
next
  case (StringScalar a)
  with assms show ?thesis
    by (cases c; cases v) (use possible_three_way in force)+
qed

lemma truth_map_BoolScalar [simp]: "truth (map_option BoolScalar b) = b"
  by (cases b) auto

lemma truth_map_not [simp]:
  "truth (map_option (\<lambda>b. BoolScalar (\<not> b)) t) = map_option Not t"
  by (cases t) auto

lemma fold_comparison_sound:
  assumes "truth (Evaluate e row) = Some (op_holds cmp o')" "o' \<in> set ords"
  shows "truth (Evaluate (fold_comparison cmp ords e) row) = Some (op_holds cmp o')"
  using assms by (auto simp: fold_comparison_def list_all_iff)

lemma kleene_and_False [simp]:
  "kleene_and (Some False) t = Some False" "kleene_and t (Some False) = Some False"
  by (cases t; simp; cases "the t"; simp)+

lemma kleene_and_True_left [simp]: "kleene_and (Some True) t = t"
  by (cases t; simp; cases "the t"; simp)

lemma kleene_and_True_right [simp]: "kleene_and t (Some True) = t"
  by (cases t; simp; cases "the t"; simp)

lemma kleene_or_True [simp]:
  "kleene_or (Some True) t = Some True" "kleene_or t (Some True) = Some True"
  by (cases t; simp; cases "the t"; simp)+

lemma kleene_or_False_left [simp]: "kleene_or (Some False) t = t"
  by (cases t; simp; cases "the t"; simp)

lemma kleene_or_False_right [simp]: "kleene_or t (Some False) = t"
  by (cases t; simp; cases "the t"; simp)

lemma kleene_and_both: "kleene_and s t = Some True \<Longrightarrow> s = Some True \<and> t = Some True"
  by (induction s t rule: kleene_and.induct) simp_all

lemma truth_fold_and:
  "truth (Evaluate (fold_and a b) row) =
   kleene_and (truth (Evaluate a row)) (truth (Evaluate b row))"
  by (auto simp: fold_and_def statically_false_def statically_true_def)

lemma truth_fold_or:
  "truth (Evaluate (fold_or a b) row) =
   kleene_or (truth (Evaluate a row)) (truth (Evaluate b row))"
  by (auto simp: fold_or_def statically_false_def statically_true_def)

lemma truth_fold_not:
  "truth (Evaluate (fold_not a) row) = map_option Not (truth (Evaluate a row))"
  by (auto simp: fold_not_def statically_false_def statically_true_def)

text \<open>
  Under a comparison that holds on the row, \<open>SimplifyWith\<close> keeps the truth value of the
  expression: by induction along the equations of \<open>SimplifyWith\<close>.
\<close>

lemma SimplifyWith_sound:
  "row g = Some x \<Longrightarrow> scalar_compare x c = Some o1 \<Longrightarrow> op_holds gcmp o1 \<Longrightarrow>
   truth (Evaluate (SimplifyWith gcmp g c e) row) = truth (Evaluate e row)"
proof (induction gcmp g c e rule: SimplifyWith.induct)
  case (1 gcmp g c cmp n v)
  show ?case
  proof (cases "n = g")
    case False
    then show ?thesis by simp
  next
    case True
    show ?thesis
    proof (cases "scalar_compare c v")
      case None
      with True show ?thesis by simp
    next
      case (Some ord)
      from possible_sound[OF "1.prems"(2) "1.prems"(3) Some]
      obtain o' where o': "scalar_compare x v = Some o'" "o' \<in> set (possible gcmp ord)"
        by blast
      have ev: "truth (Evaluate (Comparison cmp (FieldRef n) (ScalarLit v)) row)
                = Some (op_holds cmp o')"
        using True "1.prems"(1) o'(1) by simp
      from fold_comparison_sound[OF ev o'(2)] ev True Some show ?thesis by simp
    qed
  qed
next
  case (2 gcmp g c a b)
  then show ?case by (simp add: truth_fold_and)
next
  case (3 gcmp g c a b)
  then show ?case by (simp add: truth_fold_or)
next
  case (4 gcmp g c a)
  then show ?case by (simp add: truth_fold_not)
qed simp_all

lemma admits_comparison:
  assumes "admits (Comparison gcmp (FieldRef g) (ScalarLit c)) row"
  shows "\<exists>x o1. row g = Some x \<and> scalar_compare x c = Some o1 \<and> op_holds gcmp o1"
proof (cases "row g")
  case None
  with assms show ?thesis by (simp add: admits_def)
next
  case (Some x)
  show ?thesis
  proof (cases "scalar_compare x c")
    case None
    with Some assms show ?thesis by (simp add: admits_def)
  next
    case (Some o1)
    with \<open>row g = Some x\<close> assms show ?thesis by (simp add: admits_def)
  qed
qed

lemma admits_AndExpr:
  assumes "admits (AndExpr p q) row"
  shows "admits p row \<and> admits q row"
proof -
  from assms have "kleene_and (truth (Evaluate p row)) (truth (Evaluate q row)) = Some True"
    by (simp add: admits_def)
  then show ?thesis unfolding admits_def by (rule kleene_and_both)
qed

lemma Simplify_sound:
  "admits given row \<Longrightarrow> truth (Evaluate (Simplify e given) row) = truth (Evaluate e row)"
proof (induction e given rule: Simplify.induct)
  case (1 e gcmp g c)
  from admits_comparison[OF "1.prems"] obtain x o1 where
    "row g = Some x" "scalar_compare x c = Some o1" "op_holds gcmp o1" by blast
  then show ?case by (simp add: SimplifyWith_sound)
next
  case (2 e p q)
  from admits_AndExpr[OF "2.prems"] have pq: "admits p row" "admits q row" by simp_all
  from "2.IH"(2)[OF pq(2)] "2.IH"(1)[OF pq(1)] show ?case by simp
qed simp_all

lemma Simplify_admits:
  assumes "admits given row"
  shows "admits (Simplify e given) row \<longleftrightarrow> admits e row"
  using Simplify_sound[OF assms] by (simp add: admits_def)

lemma not_admits_false: "statically_false e \<Longrightarrow> \<not> admits e row"
  by (simp add: statically_false_def admits_def)

lemma could_match_not_false:
  assumes "admits p row" "admits e row"
  shows "\<not> statically_false (Simplify e p)"
  using assms Simplify_admits not_admits_false by blast

section \<open>Fragments and their accessors\<close>

text \<open>
  C9. A \<^verbatim>\<open>SimpleDataFragment\<close> is never splittable: \<^verbatim>\<open>splittable()\<close> returns false
  whatever record batches, scan options and partition expression the fragment holds, and
  so it returns the same value for any two fragments and on every call.
\<close>

theorem SimpleDataFragment_not_splittable:
  "splittable \<lparr>scan_options' = options, partition_expression' = expr,
               record_batches' = batches\<rparr> = False
   \<and> splittable self = False
   \<and> splittable self = splittable other"
  by (simp add: splittable_def)

text \<open>
  The accessors of \<^verbatim>\<open>DataFragment\<close> hand back what the constructor stored, null or not:
  neither looks at the pointer it returns.
\<close>

lemma DataFragment_accessors_nullable:
  "scan_options (DataFragment None expr) = None
   \<and> partition_expression (DataFragment None expr) = expr
   \<and> partition_expression (DataFragment options None) = None
   \<and> scan_options (DataFragment options None) = options
   \<and> scan_options (DataFragment options expr) = options
   \<and> partition_expression (DataFragment options expr) = expr"
  by (simp add: scan_options_def partition_expression_def DataFragment_def)

section \<open>Pruning\<close>

lemma AssumePartitionExpression_matching:
  assumes "holds_on (source_partition_expression self) row" "admits (filter' opts) row"
  shows "\<exists>opts'. AssumePartitionExpression self (Some opts) = (True, Some opts')
                 \<and> admits (filter' opts') row"
proof (cases "source_partition_expression self")
  case None
  with assms show ?thesis by (simp add: AssumePartitionExpression_def)
next
  case (Some p)
  with assms have p: "admits p row" by simp
  from could_match_not_false[OF p assms(2)] Simplify_admits[OF p] assms(2) Some
  show ?thesis by (simp add: AssumePartitionExpression_def Let_def)
qed

lemma GetFragmentsFromSources_fst:
  "fst (GetFragmentsFromSources cs options) = concat (map (\<lambda>c. fst (GetFragments c options)) cs)"
  by (induction cs) (auto simp del: GetFragments.simps(1) split: prod.splits)

lemma GetFragments_enumerated:
  assumes "AssumePartitionExpression self options = (True, simplified)"
  shows "fst (GetFragments self options) = fst (GetFragmentsImpl self simplified)"
    and "snd (GetFragments self options) = Enumerated self # snd (GetFragmentsImpl self simplified)"
  using assms by (simp_all split: prod.splits)

text \<open>
  A row admitted by the filter loses none of the fragments that can hold it: every fragment
  below sources whose partition expressions all hold on the row is among the fragments
  \<^verbatim>\<open>GetFragments\<close> yields. By induction over the tree of sources.
\<close>

lemma fragments_viewing_yielded:
  "admits (filter' opts) row \<Longrightarrow>
   set (fragments_viewing row self) \<subseteq> set (fst (GetFragments self (Some opts)))"
proof (induction self arbitrary: opts)
  case (SimpleDataSource p fragments)
  show ?case
  proof (cases "holds_on p row")
    case False
    then show ?thesis by simp
  next
    case True
    then have "holds_on (source_partition_expression (SimpleDataSource p fragments)) row"
      by simp
    from AssumePartitionExpression_matching[OF this SimpleDataSource.prems]
    obtain opts' where
      "AssumePartitionExpression (SimpleDataSource p fragments) (Some opts) = (True, Some opts')"
      by blast
    from GetFragments_enumerated(1)[OF this] True show ?thesis by simp
  qed
next
  case (TreeDataSource p children)
  show ?case
  proof (cases "holds_on p row")
    case False
    then show ?thesis by simp
  next
    case True
    then have "holds_on (source_partition_expression (TreeDataSource p children)) row"
      by simp
    from AssumePartitionExpression_matching[OF this TreeDataSource.prems]
    obtain opts' where
      a: "AssumePartitionExpression (TreeDataSource p children) (Some opts) = (True, Some opts')"
      and m: "admits (filter' opts') row"
      by blast
    have "set (fragments_viewing row c) \<subseteq> set (fst (GetFragments c (Some opts')))"
      if "c \<in> set children" for c
      using TreeDataSource.IH[OF that m] .
    then have "set (concat (map (fragments_viewing row) children))
        \<subseteq> set (concat (map (\<lambda>c. fst (GetFragments c (Some opts'))) children))"
      by auto
    with GetFragments_enumerated(1)[OF a] True show ?thesis
      by (simp add: GetFragmentsFromSources_fst)
  qed
qed

text \<open>
  A source built by one of the two constructors of the header has no partition expression
  and is never pruned.
\<close>

lemma make_SimpleDataSource_enumerated:
  "GetFragments (make_SimpleDataSource fragments) options
     = (fragments, [Enumerated (make_SimpleDataSource fragments)])"
  by (simp add: make_SimpleDataSource_def AssumePartitionExpression_def)

lemma make_TreeDataSource_enumerated:
  "fst (GetFragments (make_TreeDataSource children) options)
     = concat (map (\<lambda>child. fst (GetFragments child options)) children)"
proof -
  have "AssumePartitionExpression (make_TreeDataSource children) options = (True, options)"
    by (simp add: make_TreeDataSource_def AssumePartitionExpression_def)
  from GetFragments_enumerated(1)[OF this] show ?thesis
    by (simp add: make_TreeDataSource_def GetFragmentsFromSources_fst del: GetFragments.simps(1))
qed

text \<open>
  C1, as amended. Pruning soundness, for a source with partition expression \<open>p\<close> and a scan
  whose filter is \<open>f\<close>. If \<open>f\<close> simplified under the assumption \<open>p\<close> is not statically
  false, \<^verbatim>\<open>GetFragments\<close> enumerates the source and yields its fragments: all the fragments
  of a flat source, and for a tree the fragments its children yield under the simplified
  filter, child after child. Pruning never drops data that could still match: a row that
  satisfies both \<open>p\<close> and \<open>f\<close> keeps the simplification from being statically false, and
  for a row admitted by \<open>f\<close> every fragment of the subtree that can hold the row is yielded.
\<close>

theorem GetFragments_no_false_negative:
  assumes "source_partition_expression self = Some p"
  shows "(\<not> statically_false (Simplify (filter' opts) p) \<longrightarrow>
            Enumerated self \<in> set (snd (GetFragments self (Some opts)))
            \<and> fst (GetFragments self (Some opts))
                = (case self of
                     SimpleDataSource q fragments \<Rightarrow> fragments
                   | TreeDataSource q children \<Rightarrow>
                       concat (map (\<lambda>child. fst (GetFragments child
                                 (Some (opts\<lparr>filter' := Simplify (filter' opts) p\<rparr>)))) children)))
       \<and> (admits p row \<and> admits (filter' opts) row \<longrightarrow>
            \<not> statically_false (Simplify (filter' opts) p))
       \<and> (admits (filter' opts) row \<longrightarrow>
            set (fragments_viewing row self) \<subseteq> set (fst (GetFragments self (Some opts))))"
proof (intro conjI impI)
  assume nf: "\<not> statically_false (Simplify (filter' opts) p)"
  with assms have a: "AssumePartitionExpression self (Some opts)
      = (True, Some (opts\<lparr>filter' := Simplify (filter' opts) p\<rparr>))"
    by (simp add: AssumePartitionExpression_def Let_def)
  from GetFragments_enumerated(2)[OF a]
  show "Enumerated self \<in> set (snd (GetFragments self (Some opts)))" by simp
  from GetFragments_enumerated(1)[OF a]
  show "fst (GetFragments self (Some opts))
        = (case self of
             SimpleDataSource q fragments \<Rightarrow> fragments
           | TreeDataSource q children \<Rightarrow>
               concat (map (\<lambda>child. fst (GetFragments child
                         (Some (opts\<lparr>filter' := Simplify (filter' opts) p\<rparr>)))) children))"
    by (cases self) (simp_all add: GetFragmentsFromSources_fst del: GetFragments.simps(1))
next
  assume "admits p row \<and> admits (filter' opts) row"
  then show "\<not> statically_false (Simplify (filter' opts) p)"
    using could_match_not_false by blast
next
  assume "admits (filter' opts) row"
  then show "set (fragments_viewing row self) \<subseteq> set (fst (GetFragments self (Some opts)))"
    by (rule fragments_viewing_yielded)
qed

text \<open>
  The theorem at the tree for the year 2015, scanned for \<open>year = 2015 and part = 1\<close>: the
  tree is enumerated, directory \<open>1\<close> below it yields its fragment and directory \<open>2\<close> is
  pruned; the row \<open>year = 2015, part = 1\<close> can only be held by the fragment of directory
  \<open>1\<close>, which is yielded.
\<close>

theorem GetFragments_no_false_negative_witness:
  "source_partition_expression year_source = Some (year_equals 2015)
   \<and> \<not> statically_false
        (Simplify (filter' (scan_with (AndExpr (year_equals 2015) (part_equals 1))))
           (year_equals 2015))
   \<and> admits (year_equals 2015) (row_of_year_part 2015 1)
   \<and> admits (filter' (scan_with (AndExpr (year_equals 2015) (part_equals 1))))
        (row_of_year_part 2015 1)
   \<and> Enumerated year_source
        \<in> set (snd (GetFragments year_source
                      (Some (scan_with (AndExpr (year_equals 2015) (part_equals 1))))))
   \<and> fst (GetFragments year_source
             (Some (scan_with (AndExpr (year_equals 2015) (part_equals 1)))))
        = [in_memory [[[(''int'', IntScalar 100)]]]]
   \<and> fragments_viewing (row_of_year_part 2015 1) year_source
        = [in_memory [[[(''int'', IntScalar 100)]]]]
   \<and> set (fragments_viewing (row_of_year_part 2015 1) year_source)
        \<subseteq> set (fst (GetFragments year_source
                       (Some (scan_with (AndExpr (year_equals 2015) (part_equals 1))))))"
proof -
  let ?f = "AndExpr (year_equals 2015) (part_equals 1)"
  let ?row = "row_of_year_part 2015 1"
  have pe: "source_partition_expression year_source = Some (year_equals 2015)"
    by (simp add: year_source_def)
  have residual: "Simplify ?f (year_equals 2015) = part_equals 1"
    by (simp add: year_equals_def part_equals_def fold_comparison_def three_way_def
        fold_and_def statically_false_def statically_true_def)
  have nf: "\<not> statically_false (Simplify (filter' (scan_with ?f)) (year_equals 2015))"
    by (simp add: scan_with_def residual) (simp add: part_equals_def statically_false_def)
  have adm_p: "admits (year_equals 2015) ?row"
    by (simp add: admits_def year_equals_def row_of_year_part_def three_way_def)
  have adm_f: "admits (filter' (scan_with ?f)) ?row"
    by (simp add: scan_with_def admits_def year_equals_def part_equals_def
        row_of_year_part_def three_way_def)
  have child1: "fst (GetFragments (directory_source 1)
                       (Some (scan_with ?f\<lparr>filter' := Simplify (filter' (scan_with ?f)) (year_equals 2015)\<rparr>)))
                = [in_memory [[[(''int'', IntScalar 100)]]]]"
    by (simp add: scan_with_def residual)
       (simp add: directory_source_def part_equals_def fold_comparison_def three_way_def
          statically_false_def AssumePartitionExpression_def)
  have child2: "fst (GetFragments (directory_source 2)
                       (Some (scan_with ?f\<lparr>filter' := Simplify (filter' (scan_with ?f)) (year_equals 2015)\<rparr>)))
                = []"
    by (simp add: scan_with_def residual)
       (simp add: directory_source_def part_equals_def fold_comparison_def three_way_def
          statically_false_def AssumePartitionExpression_def)
  have viewing: "fragments_viewing ?row year_source = [in_memory [[[(''int'', IntScalar 100)]]]]"
    by (simp add: year_source_def directory_source_def part_equals_def year_equals_def
        row_of_year_part_def admits_def three_way_def)
  from GetFragments_no_false_negative[OF pe, of "scan_with ?f" ?row] nf adm_f
  have visited: "Enumerated year_source \<in> set (snd (GetFragments year_source (Some (scan_with ?f))))"
    and yielded: "fst (GetFragments year_source (Some (scan_with ?f)))
        = (case year_source of
             SimpleDataSource q fragments \<Rightarrow> fragments
           | TreeDataSource q children \<Rightarrow>
               concat (map (\<lambda>child. fst (GetFragments child
                 (Some (scan_with ?f\<lparr>filter' := Simplify (filter' (scan_with ?f)) (year_equals 2015)\<rparr>))))
                 children))"
    and kept: "set (fragments_viewing ?row year_source)
        \<subseteq> set (fst (GetFragments year_source (Some (scan_with ?f))))"
    by blast+
  from yielded child1 child2
  have "fst (GetFragments year_source (Some (scan_with ?f))) = [in_memory [[[(''int'', IntScalar 100)]]]]"
    by (simp add: year_source_def del: GetFragments.simps(1))
  with pe nf adm_p adm_f visited viewing kept show ?thesis by blast
qed

text \<open>
  The claim as first written tests the simplification of the negated filter. At the source
  of directory \<open>1\<close> (\<open>p\<close> is \<open>part = 1\<close>) and the filter \<open>part = 2\<close>, simplifying
  \<open>not (part = 2)\<close> under \<open>p\<close> gives \<open>true\<close>, which is not statically false; yet the
  source is pruned: it is not enumerated and yields none of its fragments.
\<close>

theorem GetFragments_negated_filter_counterexample:
  "source_partition_expression (directory_source 1) = Some (part_equals 1)
   \<and> \<not> statically_false (Simplify (NotExpr (part_equals 2)) (part_equals 1))
   \<and> GetFragments (directory_source 1) (Some (scan_with (part_equals 2)))
       = ([], [Pruned (directory_source 1)])
   \<and> Enumerated (directory_source 1)
       \<notin> set (snd (GetFragments (directory_source 1) (Some (scan_with (part_equals 2)))))
   \<and> fst (GetFragmentsImpl (directory_source 1) (Some (scan_with (part_equals 2))))
       = [in_memory [[[(''int'', IntScalar 100)]]]]"
  by (simp add: directory_source_def part_equals_def scan_with_def fold_comparison_def
      three_way_def fold_not_def statically_false_def statically_true_def
      AssumePartitionExpression_def)

end
